theory Spec2Isabelle
  imports Complex_Main
begin

section \<open>JavaScript values and strings\<close>

text \<open>
  The utility is a Node.js script. Strings are modelled as \<^typ>\<open>string\<close>, exceptions as
  values of type \<open>error\<close>: a \<open>TypeError\<close> is raised by the language itself (reading a
  property of \<open>null\<close> or \<open>undefined\<close>, calling something that is not a function), a
  \<open>Thrown\<close> error comes from the file system, the network or \<open>JSON.parse\<close>.
\<close>

datatype error = TypeError string | Thrown string

subsection \<open>\<open>String.prototype.includes\<close> and \<open>String.prototype.split\<close>\<close>

fun starts_with :: "string \<Rightarrow> string \<Rightarrow> bool" where
  "starts_with s [] = True"
| "starts_with [] (c # cs) = False"
| "starts_with (x # xs) (c # cs) = (x = c \<and> starts_with xs cs)"

fun str_includes :: "string \<Rightarrow> string \<Rightarrow> bool" where
  "str_includes [] sub = starts_with [] sub"
| "str_includes (x # xs) sub = (starts_with (x # xs) sub \<or> str_includes xs sub)"

text \<open>
  \<open>s.split(sep)\<close> for a separator of one character: the string is scanned once, \<open>cur\<close>
  holds the current piece in reverse. The result is never empty: \<open>''''.split('/')\<close> is
  the array holding the empty string.
\<close>

fun split_from :: "char \<Rightarrow> string \<Rightarrow> string \<Rightarrow> string list" where
  "split_from sep cur [] = [rev cur]"
| "split_from sep cur (c # cs) =
     (if c = sep then rev cur # split_from sep [] cs else split_from sep (c # cur) cs)"

definition str_split :: "char \<Rightarrow> string \<Rightarrow> string list" where
  "str_split sep s = split_from sep [] s"

text \<open>Reading an array at an index: \<open>None\<close> stands for \<open>undefined\<close>.\<close>

definition js_last :: "'a list \<Rightarrow> 'a option" where
  "js_last xs = (if xs = [] then None else Some (last xs))"

definition js_first :: "'a list \<Rightarrow> 'a option" where
  "js_first xs = (case xs of [] \<Rightarrow> None | x # rest \<Rightarrow> Some x)"

subsection \<open>The regular expressions of the two scripts\<close>

text \<open>
  The scripts use four regular expressions, built from literal characters, the classes
  \<open>[0-9]\<close>, \<open>[^_]\<close> and \<open>[a-zA-Z0-9]\<close> under \<open>+\<close>, and the anchor \<open>$\<close>. The matcher
  below is the backtracking one of the language: \<open>+\<close> is greedy and gives characters
  back one at a time, and the search takes the leftmost position at which a match exists.
\<close>

datatype cclass = Digit | NotUnderscore | Alnum

fun in_class :: "cclass \<Rightarrow> char \<Rightarrow> bool" where
  "in_class Digit c = (c \<in> set ''0123456789'')"
| "in_class NotUnderscore c = (c \<noteq> CHR ''_'')"
| "in_class Alnum c =
     (c \<in> set ''abcdefghijklmnopqrstuvwxyzABCDEFGHIJKLMNOPQRSTUVWXYZ0123456789'')"

datatype atom = Lit char | Plus cclass | End

fun first_some :: "('a \<Rightarrow> 'b option) \<Rightarrow> 'a list \<Rightarrow> 'b option" where
  "first_some f [] = None"
| "first_some f (x # xs) = (case f x of Some y \<Rightarrow> Some y | None \<Rightarrow> first_some f xs)"

text \<open>\<open>match_here r s\<close> is the length of the match of \<open>r\<close> at the start of \<open>s\<close>.\<close>

fun match_here :: "atom list \<Rightarrow> string \<Rightarrow> nat option" where
  "match_here [] s = Some 0"
| "match_here (End # r) s = (if s = [] then match_here r s else None)"
| "match_here (Lit c # r) s =
     (case s of
        [] \<Rightarrow> None
      | x # xs \<Rightarrow> if x = c then map_option Suc (match_here r xs) else None)"
| "match_here (Plus cl # r) s =
     first_some (\<lambda>k. map_option (\<lambda>m. k + m) (match_here r (drop k s)))
       (rev [1 ..< Suc (length (takeWhile (in_class cl) s))])"

text \<open>The leftmost match: its start index and its length.\<close>

fun regex_search :: "atom list \<Rightarrow> string \<Rightarrow> (nat \<times> nat) option" where
  "regex_search r [] = map_option (Pair 0) (match_here r [])"
| "regex_search r (c # cs) =
     (case match_here r (c # cs) of
        Some n \<Rightarrow> Some (0, n)
      | None \<Rightarrow> map_option (\<lambda>(i, n). (Suc i, n)) (regex_search r cs))"

text \<open>
  \<open>s.replace(re, repl)\<close> without the \<open>g\<close> flag replaces the leftmost match only; the
  replacement strings of the script contain no \<open>$\<close>, so they are inserted as they are.
  \<open>s.match(re)\<close> is modelled by its element \<open>[0]\<close>, the matched text.
\<close>

definition str_replace :: "atom list \<Rightarrow> string \<Rightarrow> string \<Rightarrow> string" where
  "str_replace r repl s =
     (case regex_search r s of
        None \<Rightarrow> s
      | Some (i, n) \<Rightarrow> take i s @ repl @ drop (i + n) s)"

definition str_match :: "atom list \<Rightarrow> string \<Rightarrow> string option" where
  "str_match r s = map_option (\<lambda>(i, n). take n (drop i s)) (regex_search r s)"

text \<open>\<open>/tok[0-9]+x[0-9]+/\<close> and \<open>/[^_]+\.([a-zA-Z0-9]+)$/\<close>.\<close>

definition dims_re :: "string \<Rightarrow> atom list" where
  "dims_re tok = map Lit tok @ [Plus Digit, Lit CHR ''x'', Plus Digit]"

definition id_ext_re :: "atom list" where
  "id_ext_re = [Plus NotUnderscore, Lit CHR ''.'', Plus Alnum, End]"

section \<open>URL Normalizer and Filename Extractor\<close>

text \<open>\<open>formatImageUrl\<close> of \<open>download_images.js\<close>.\<close>

definition formatImageUrl :: "string \<Rightarrow> string" where
  "formatImageUrl imgUrl =
     (if str_includes imgUrl ''/iap/''
        then str_replace (dims_re ''iap_'') ''iap_640x640'' imgUrl
      else if str_includes imgUrl ''/il/''
        then str_replace (dims_re ''il_'') ''il_570x456'' imgUrl
      else if str_includes imgUrl ''/iusa/''
        then str_replace (dims_re ''iusa_'') ''iusa_400x400'' imgUrl
      else imgUrl)"

text \<open>
  \<open>getFilenameFromUrl\<close> of \<open>download_images.js\<close>. Had \<open>split\<close> returned an empty
  array, \<open>lastPart\<close> would be \<open>undefined\<close> and \<open>lastPart.split\<close> a \<open>TypeError\<close>; an empty
  second array would make the function return \<open>undefined\<close> (\<open>None\<close>).
\<close>

definition getFilenameFromUrl :: "string \<Rightarrow> error + string option" where
  "getFilenameFromUrl imgUrl =
     (let parts = str_split CHR ''/'' imgUrl in
      case js_last parts of
        None \<Rightarrow> Inl (TypeError ''Cannot read properties of undefined (reading split)'')
      | Some lastPart \<Rightarrow> Inr (js_first (str_split CHR ''?'' lastPart)))"

text \<open>
  The same two functions as the auxiliary test script re-implements them: the family is
  recognised by the token itself, and the filename is cut down by a pattern.
\<close>

definition test_formatImageUrl :: "string \<Rightarrow> string" where
  "test_formatImageUrl imgUrl =
     (if str_includes imgUrl ''iap_''
        then str_replace (dims_re ''iap_'') ''iap_640x640'' imgUrl
      else if str_includes imgUrl ''il_''
        then str_replace (dims_re ''il_'') ''il_570x456'' imgUrl
      else if str_includes imgUrl ''iusa_''
        then str_replace (dims_re ''iusa_'') ''iusa_400x400'' imgUrl
      else imgUrl)"

definition test_getFilenameFromUrl :: "string \<Rightarrow> error + string option" where
  "test_getFilenameFromUrl imgUrl =
     (let parts = str_split CHR ''/'' imgUrl in
      case js_last parts of
        None \<Rightarrow> Inl (TypeError ''Cannot read properties of undefined (reading split)'')
      | Some lastPart \<Rightarrow>
          (case js_first (str_split CHR ''?'' lastPart) of
             None \<Rightarrow> Inl (TypeError ''Cannot read properties of undefined (reading match)'')
           | Some filename \<Rightarrow>
               (case str_match id_ext_re filename of
                  Some m \<Rightarrow> Inr (Some m)
                | None \<Rightarrow> Inr (Some filename))))"

subsection \<open>The extractor as the specification words it\<close>

text \<open>
  The final \<open>/\<close>-separated segment of a URL, and a string with everything from its first
  \<open>?\<close> onward removed.
\<close>

definition final_segment :: "string \<Rightarrow> string" where
  "final_segment u = rev (takeWhile (\<lambda>c. c \<noteq> CHR ''/'') (rev u))"

definition strip_query :: "string \<Rightarrow> string" where
  "strip_query s = takeWhile (\<lambda>c. c \<noteq> CHR ''?'') s"

subsection \<open>The family checks in an arbitrary order\<close>

text \<open>
  The three branches of \<open>formatImageUrl\<close> as data, and the chain of checks run in the
  order of a given list of families.
\<close>

datatype family = Iap | Il | Iusa

fun marker :: "family \<Rightarrow> string" where
  "marker Iap = ''/iap/''"
| "marker Il = ''/il/''"
| "marker Iusa = ''/iusa/''"

fun rewrite :: "family \<Rightarrow> string \<Rightarrow> string" where
  "rewrite Iap u = str_replace (dims_re ''iap_'') ''iap_640x640'' u"
| "rewrite Il u = str_replace (dims_re ''il_'') ''il_570x456'' u"
| "rewrite Iusa u = str_replace (dims_re ''iusa_'') ''iusa_400x400'' u"

fun formatImageUrl_in_order :: "family list \<Rightarrow> string \<Rightarrow> string" where
  "formatImageUrl_in_order [] u = u"
| "formatImageUrl_in_order (f # fs) u =
     (if str_includes u (marker f) then rewrite f u else formatImageUrl_in_order fs u)"

text \<open>The families whose marker a URL contains.\<close>

definition matched_families :: "string \<Rightarrow> family list" where
  "matched_families u = filter (\<lambda>f. str_includes u (marker f)) [Iap, Il, Iusa]"

section \<open>Parsed JSON and property access\<close>

text \<open>
  The values the script handles: what \<open>JSON.parse\<close> returns, \<open>undefined\<close>, and
  \<open>JBuiltin\<close> for the functions and objects that every value inherits from its
  prototype. A number is kept as its value; the script only tests it for zero.
  \<open>JObj\<close> lists the own properties of an object, the first entry of a key counting.
\<close>

datatype jsval =
    JUndefined
  | JNull
  | JBool bool
  | JNum rat
  | JStr string
  | JArr "jsval list"
  | JObj "(string \<times> jsval) list"
  | JBuiltin

fun truthy :: "jsval \<Rightarrow> bool" where
  "truthy JUndefined = False"
| "truthy JNull = False"
| "truthy (JBool b) = b"
| "truthy (JNum n) = (n \<noteq> 0)"
| "truthy (JStr s) = (s \<noteq> [])"
| "truthy (JArr xs) = True"
| "truthy (JObj kvs) = True"
| "truthy JBuiltin = True"

text \<open>
  An object literal \<open>{}\<close> and every parsed object inherit the properties of
  \<open>Object.prototype\<close>; each of them is a function or an object, hence truthy.
\<close>

definition object_prototype_keys :: "string list" where
  "object_prototype_keys =
     [''constructor'', ''__defineGetter__'', ''__defineSetter__'', ''hasOwnProperty'',
      ''__lookupGetter__'', ''__lookupSetter__'', ''isPrototypeOf'',
      ''propertyIsEnumerable'', ''toString'', ''valueOf'', ''__proto__'',
      ''toLocaleString'']"

text \<open>
  \<open>v[k]\<close>. Reading a property of \<open>null\<close> or \<open>undefined\<close> is a \<open>TypeError\<close>. The
  properties of arrays, strings, numbers, booleans and built-in objects (indices,
  \<open>length\<close>, inherited methods) vary with the runtime and are its parameter \<open>prim\<close>.
\<close>

fun get_prop :: "(jsval \<Rightarrow> string \<Rightarrow> jsval) \<Rightarrow> jsval \<Rightarrow> string \<Rightarrow> error + jsval" where
  "get_prop prim JUndefined k = Inl (TypeError ''Cannot read properties of undefined'')"
| "get_prop prim JNull k = Inl (TypeError ''Cannot read properties of null'')"
| "get_prop prim (JObj kvs) k =
     Inr (case map_of kvs k of
            Some v \<Rightarrow> v
          | None \<Rightarrow> if k \<in> set object_prototype_keys then JBuiltin else JUndefined)"
| "get_prop prim v k = Inr (prim v k)"

subsection \<open>The object \<open>visited\<close>\<close>

text \<open>
  \<open>visited\<close> starts as \<open>{}\<close> and only ever receives \<open>visited[filename] = true\<close>; it is
  modelled by the list of its own keys. \<open>visited[k]\<close> is truthy when \<open>k\<close> is an own key or
  a key of \<open>Object.prototype\<close>. Assigning a primitive to \<open>__proto__\<close> changes nothing.
\<close>

definition visited_has :: "string list \<Rightarrow> string \<Rightarrow> bool" where
  "visited_has own k = (k \<in> set own \<or> k \<in> set object_prototype_keys)"

definition visited_put :: "string list \<Rightarrow> string \<Rightarrow> string list" where
  "visited_put own k =
     (if k = ''__proto__'' then own else if k \<in> set own then own else own @ [k])"

section \<open>\<open>path.join\<close>\<close>

text \<open>
  \<open>path.join\<close> of Node.js on a POSIX system: the non-empty arguments are joined by \<open>/\<close>
  and the result is normalized. Normalization works on the \<open>/\<close>-separated segments: empty
  segments and \<open>.\<close> are dropped, \<open>..\<close> removes the segment before it, or is kept at the
  front of a relative path. \<open>res\<close> holds the segments kept so far, the last one first.
\<close>

fun join_segments :: "string list \<Rightarrow> string" where
  "join_segments [] = []"
| "join_segments [s] = s"
| "join_segments (s # t # rest) = s @ CHR ''/'' # join_segments (t # rest)"

fun normalize_segments :: "bool \<Rightarrow> string list \<Rightarrow> string list \<Rightarrow> string list" where
  "normalize_segments allowAboveRoot res [] = rev res"
| "normalize_segments allowAboveRoot res (seg # segs) =
     (if seg = [] \<or> seg = ''.'' then normalize_segments allowAboveRoot res segs
      else if seg = ''..'' then
        (case res of
           [] \<Rightarrow>
             normalize_segments allowAboveRoot (if allowAboveRoot then [''..''] else []) segs
         | l # before \<Rightarrow>
             if l = ''..''
             then normalize_segments allowAboveRoot
                    (if allowAboveRoot then ''..'' # res else res) segs
             else normalize_segments allowAboveRoot before segs)
      else normalize_segments allowAboveRoot (seg # res) segs)"

definition path_normalize :: "string \<Rightarrow> string" where
  "path_normalize path =
     (if path = [] then ''.''
      else
        (let isAbsolute = (hd path = CHR ''/'');
             trailingSeparator = (last path = CHR ''/'');
             p = join_segments
                   (normalize_segments (\<not> isAbsolute) [] (str_split CHR ''/'' path))
         in if p = [] then (if isAbsolute then ''/'' else if trailingSeparator then ''./'' else ''.'')
            else (if isAbsolute then ''/'' else []) @ p
                   @ (if trailingSeparator then ''/'' else [])))"

definition path_join :: "string list \<Rightarrow> string" where
  "path_join args =
     (let parts = filter (\<lambda>a. a \<noteq> []) args
      in if parts = [] then ''.'' else path_normalize (join_segments parts))"



section \<open>The environment\<close>

text \<open>
  The file system and the network are a state \<open>'w\<close> that the script reads and changes
  through the operations below; an operation that can fail returns the error it throws.
  Nothing is assumed about them. Console output is not modelled.
\<close>

record 'w env =
  readFileSync :: "string \<Rightarrow> 'w \<Rightarrow> error + string"
  json_parse :: "string \<Rightarrow> error + jsval"
  existsSync :: "string \<Rightarrow> 'w \<Rightarrow> bool"
  mkdirSync :: "string \<Rightarrow> 'w \<Rightarrow> error option \<times> 'w"
  axios_get :: "string \<Rightarrow> 'w \<Rightarrow> (error + string) \<times> 'w"
  writeFileSync :: "string \<Rightarrow> string \<Rightarrow> 'w \<Rightarrow> error option \<times> 'w"
  prim_prop :: "jsval \<Rightarrow> string \<Rightarrow> jsval"

section \<open>Directory Provisioner and Fetcher\<close>

definition ensureDirectoryExists :: "'w env \<Rightarrow> string \<Rightarrow> 'w \<Rightarrow> error option \<times> 'w" where
  "ensureDirectoryExists E dir w =
     (if \<not> existsSync E dir w then mkdirSync E dir w else (None, w))"

text \<open>
  \<open>try { ... } catch (error) { ... }\<close>: the handler runs on the error the body throws, in
  the state the body left.
\<close>

definition try_catch ::
  "('w \<Rightarrow> (error + 'a) \<times> 'w) \<Rightarrow> (error \<Rightarrow> 'w \<Rightarrow> (error + 'a) \<times> 'w)
     \<Rightarrow> 'w \<Rightarrow> (error + 'a) \<times> 'w" where
  "try_catch body handler w =
     (case body w of
        (Inl e, w1) \<Rightarrow> handler e w1
      | (Inr x, w1) \<Rightarrow> (Inr x, w1))"

text \<open>The body of the \<open>try\<close> block of \<open>downloadImage\<close>, and the function itself.\<close>

definition downloadImage_body :: "'w env \<Rightarrow> string \<Rightarrow> string \<Rightarrow> 'w \<Rightarrow> (error + bool) \<times> 'w" where
  "downloadImage_body E url filepath w =
     (case axios_get E url w of
        (Inl e, w1) \<Rightarrow> (Inl e, w1)
      | (Inr response_data, w1) \<Rightarrow>
          (case writeFileSync E filepath response_data w1 of
             (Some e, w2) \<Rightarrow> (Inl e, w2)
           | (None, w2) \<Rightarrow> (Inr True, w2)))"

definition downloadImage :: "'w env \<Rightarrow> string \<Rightarrow> string \<Rightarrow> 'w \<Rightarrow> (error + bool) \<times> 'w" where
  "downloadImage E url filepath =
     try_catch (downloadImage_body E url filepath) (\<lambda>error w. (Inr False, w))"

section \<open>Batch Processor\<close>

text \<open>
  The variables of \<open>downloadProductImages\<close> that the loop updates. \<open>attempts\<close> is not a
  variable of the script: it lists the calls of \<open>downloadImage\<close>, with the URL and the
  file path passed, in the order they are made.
\<close>

record state =
  visited :: "string list"
  downloadCount :: nat
  skipCount :: nat
  errorCount :: nat
  attempts :: "(string \<times> string) list"

definition initial_state :: state where
  "initial_state =
     \<lparr>visited = [], downloadCount = 0, skipCount = 0, errorCount = 0, attempts = []\<rparr>"

definition skipped :: "state \<Rightarrow> state" where
  "skipped st = st\<lparr>skipCount := skipCount st + 1\<rparr>"

text \<open>
  The state after a download attempt: the filename is marked, the call is listed, and
  the attempt is counted as downloaded or as errored.
\<close>

definition attempted :: "state \<Rightarrow> string \<Rightarrow> string \<Rightarrow> string \<Rightarrow> bool \<Rightarrow> state" where
  "attempted st imgUrl filename filepath success =
     (let st1 = st\<lparr>visited := visited_put (visited st) filename,
                    attempts := attempts st @ [(imgUrl, filepath)]\<rparr>
      in if success then st1\<lparr>downloadCount := downloadCount st1 + 1\<rparr>
         else st1\<lparr>errorCount := errorCount st1 + 1\<rparr>)"

text \<open>
  Lines 118 to 138 of the loop body, for the value found at
  \<open>review[objectKey][imageKey]\<close>. A truthy value that is not a string has no usable
  \<open>includes\<close>, \<open>replace\<close> and \<open>split\<close>, so one of the calls is a \<open>TypeError\<close>.
\<close>

definition download_step ::
  "'w env \<Rightarrow> string \<Rightarrow> jsval \<Rightarrow> state \<Rightarrow> 'w \<Rightarrow> (error + state) \<times> 'w" where
  "download_step E outputFolder img st w =
     (case img of
        JStr raw \<Rightarrow>
          (let imgUrl = formatImageUrl raw in
           case getFilenameFromUrl imgUrl of
             Inl e \<Rightarrow> (Inl e, w)
           | Inr None \<Rightarrow> (Inl (TypeError ''The path argument must be of type string''), w)
           | Inr (Some filename) \<Rightarrow>
               (let filepath = path_join [outputFolder, filename] in
                if visited_has (visited st) filename then (Inr (skipped st), w)
                else
                  (let st1 = st\<lparr>visited := visited_put (visited st) filename,
                                 attempts := attempts st @ [(imgUrl, filepath)]\<rparr>
                   in case downloadImage E imgUrl filepath w of
                        (Inl e, w1) \<Rightarrow> (Inl e, w1)
                      | (Inr success, w1) \<Rightarrow>
                          if success
                          then (Inr (st1\<lparr>downloadCount := downloadCount st1 + 1\<rparr>), w1)
                          else (Inr (st1\<lparr>errorCount := errorCount st1 + 1\<rparr>), w1))))
      | other \<Rightarrow> (Inl (TypeError ''imgUrl.includes, replace or split is not a function''), w))"

text \<open>One iteration of the loop.\<close>

definition process_review ::
  "'w env \<Rightarrow> string \<Rightarrow> string \<Rightarrow> string \<Rightarrow> jsval \<Rightarrow> state \<Rightarrow> 'w
     \<Rightarrow> (error + state) \<times> 'w" where
  "process_review E outputFolder objectKey imageKey review st w =
     (case get_prop (prim_prop E) review objectKey of
        Inl e \<Rightarrow> (Inl e, w)
      | Inr sub \<Rightarrow>
          if \<not> truthy sub then (Inr (skipped st), w)
          else
            (case get_prop (prim_prop E) sub imageKey of
               Inl e \<Rightarrow> (Inl e, w)
             | Inr img \<Rightarrow>
                 if \<not> truthy img then (Inr (skipped st), w)
                 else download_step E outputFolder img st w))"

text \<open>The loop over the elements of the array \<open>data['Reviews']\<close>, in their order.\<close>

fun process_reviews ::
  "'w env \<Rightarrow> string \<Rightarrow> string \<Rightarrow> string \<Rightarrow> jsval list \<Rightarrow> state \<Rightarrow> 'w
     \<Rightarrow> (error + state) \<times> 'w" where
  "process_reviews E outputFolder objectKey imageKey [] st w = (Inr st, w)"
| "process_reviews E outputFolder objectKey imageKey (review # rest) st w =
     (case process_review E outputFolder objectKey imageKey review st w of
        (Inl e, w1) \<Rightarrow> (Inl e, w1)
      | (Inr st1, w1) \<Rightarrow> process_reviews E outputFolder objectKey imageKey rest st1 w1)"

text \<open>
  What an invocation that does not throw ends with: \<open>Aborted\<close> after a read or parse
  failure (logged, early return), or the summary with \<open>totalReviews\<close> and the counters.
\<close>

datatype outcome = Aborted | Summary nat state

definition read_and_parse :: "'w env \<Rightarrow> string \<Rightarrow> 'w \<Rightarrow> error + jsval" where
  "read_and_parse E jsonFilePath w =
     (case readFileSync E jsonFilePath w of
        Inl e \<Rightarrow> Inl e
      | Inr jsonData \<Rightarrow> json_parse E jsonData)"

text \<open>
  \<open>data['Reviews'].length\<close> throws when the field is absent or \<open>null\<close>. The loop is
  modelled for an array. For any other value of the field the bound of the loop is what
  JavaScript's conversion to a number makes of its \<open>length\<close>; such runs are outside this
  model, and the result is \<open>None\<close> for them.
\<close>

definition downloadProductImages ::
  "'w env \<Rightarrow> string \<Rightarrow> string \<Rightarrow> string \<Rightarrow> string \<Rightarrow> 'w
     \<Rightarrow> ((error + outcome) \<times> 'w) option" where
  "downloadProductImages E jsonFilePath outputFolder objectKey imageKey w =
     (case read_and_parse E jsonFilePath w of
        Inl e \<Rightarrow> Some (Inr Aborted, w)
      | Inr data \<Rightarrow>
          (case ensureDirectoryExists E outputFolder w of
             (Some e, w1) \<Rightarrow> Some (Inl e, w1)
           | (None, w1) \<Rightarrow>
               (case get_prop (prim_prop E) data ''Reviews'' of
                  Inl e \<Rightarrow> Some (Inl e, w1)
                | Inr JUndefined \<Rightarrow>
                    Some (Inl (TypeError
                            ''Cannot read properties of undefined (reading length)''), w1)
                | Inr JNull \<Rightarrow>
                    Some (Inl (TypeError
                            ''Cannot read properties of null (reading length)''), w1)
                | Inr (JArr reviews) \<Rightarrow>
                    (case process_reviews E outputFolder objectKey imageKey reviews
                            initial_state w1 of
                       (Inl e, w2) \<Rightarrow> Some (Inl e, w2)
                     | (Inr st, w2) \<Rightarrow> Some (Inr (Summary (length reviews) st), w2))
                | Inr other \<Rightarrow> None)))"

text \<open>
  The filename that a review yields after normalization and extraction, for a review
  that has the selected sub-record and a non-empty string in its image field.
\<close>

definition derived_filename :: "'w env \<Rightarrow> string \<Rightarrow> string \<Rightarrow> jsval \<Rightarrow> string option" where
  "derived_filename E objectKey imageKey review =
     (case get_prop (prim_prop E) review objectKey of
        Inl e \<Rightarrow> None
      | Inr sub \<Rightarrow>
          if \<not> truthy sub then None
          else
            (case get_prop (prim_prop E) sub imageKey of
               Inr (JStr raw) \<Rightarrow>
                 if raw = [] then None
                 else (case getFilenameFromUrl (formatImageUrl raw) of
                         Inr (Some filename) \<Rightarrow> Some filename
                       | other \<Rightarrow> None)
             | other \<Rightarrow> None))"

section \<open>Entry Point\<close>

text \<open>\<open>args[i] || dflt\<close>: a missing or empty argument gives the default.\<close>

definition arg_or :: "string list \<Rightarrow> nat \<Rightarrow> string \<Rightarrow> string" where
  "arg_or args i dflt = (if i < length args \<and> args ! i \<noteq> [] then args ! i else dflt)"

text \<open>
  \<open>main().catch(...)\<close>: the result is the exit status of the process, 1 from
  \<open>process.exit(1)\<close> in the handler of an error that \<open>main\<close> lets through, 0 otherwise.
\<close>

definition main :: "'w env \<Rightarrow> string list \<Rightarrow> 'w \<Rightarrow> (nat \<times> 'w) option" where
  "main E args w =
     (let jsonFilePath = arg_or args 0 ''./total_etsy_shop_reviews.json'';
          baseOutputFolder = arg_or args 1 ''./Result/Images'';
          outputReviewsFolder = path_join [baseOutputFolder, ''Reviews'']
      in case downloadProductImages E jsonFilePath outputReviewsFolder
                ''Reviewer'' ''Thumbnail'' w of
           None \<Rightarrow> None
         | Some (Inl error, w1) \<Rightarrow> Some (1, w1)
         | Some (Inr done, w1) \<Rightarrow> Some (0, w1))"

section \<open>Concrete runs\<close>

text \<open>
  An environment for concrete runs: the export parses to \<open>data\<close>, the output folder
  exists, every write succeeds, and a request fails exactly for the URLs in \<open>failing\<close>.
\<close>

definition run_env :: "jsval \<Rightarrow> string list \<Rightarrow> unit env" where
  "run_env data failing =
     \<lparr>readFileSync = (\<lambda>p w. Inr ''(export)''),
      json_parse = (\<lambda>txt. Inr data),
      existsSync = (\<lambda>d w. True),
      mkdirSync = (\<lambda>d w. (None, w)),
      axios_get = (\<lambda>url w. if url \<in> set failing
                              then (Inl (Thrown ''Network Error''), w)
                              else (Inr ''(image)'', w)),
      writeFileSync = (\<lambda>p d w. (None, w)),
      prim_prop = (\<lambda>v k. JUndefined)\<rparr>"

text \<open>
  The same environment with a state that records what the script does to the network
  and the file system: every request made and every file written, in order.
\<close>

datatype io_event = Requested string | Wrote string

definition trace_env :: "jsval \<Rightarrow> string list \<Rightarrow> io_event list env" where
  "trace_env data failing =
     \<lparr>readFileSync = (\<lambda>p w. Inr ''(export)''),
      json_parse = (\<lambda>txt. Inr data),
      existsSync = (\<lambda>d w. True),
      mkdirSync = (\<lambda>d w. (None, w)),
      axios_get = (\<lambda>url w. if url \<in> set failing
                              then (Inl (Thrown ''Network Error''), w @ [Requested url])
                              else (Inr ''(image)'', w @ [Requested url])),
      writeFileSync = (\<lambda>p d w. (None, w @ [Wrote p])),
      prim_prop = (\<lambda>v k. JUndefined)\<rparr>"

definition thumb :: "string \<Rightarrow> jsval" where
  "thumb url = JObj [(''Reviewer'', JObj [(''Thumbnail'', JStr url)])]"

section \<open>Properties of the string functions\<close>

lemma split_from_nonempty: "split_from sep cur s \<noteq> []"
  by (induction s arbitrary: cur) auto

lemma hd_split_from: "hd (split_from sep cur s) = rev cur @ takeWhile (\<lambda>c. c \<noteq> sep) s"
  by (induction s arbitrary: cur) auto

lemma rev_takeWhile_snoc:
  "rev (takeWhile P (rev cs @ [c])) =
     (if \<forall>x\<in>set cs. P x then (if P c then c # cs else cs)
      else rev (takeWhile P (rev cs)))"
  by (auto simp: takeWhile_append)

lemma last_split_from:
  "last (split_from sep cur s) =
     (if sep \<in> set s then rev (takeWhile (\<lambda>c. c \<noteq> sep) (rev s)) else rev cur @ s)"
proof (induction s arbitrary: cur)
  case Nil
  then show ?case by simp
next
  case (Cons c cs)
  show ?case
  proof (cases "c = sep")
    case True
    then show ?thesis
      using Cons.IH[of "[]"] split_from_nonempty[of sep "[]" cs]
      by (auto simp: rev_takeWhile_snoc)
  next
    case False
    then show ?thesis
      using Cons.IH[of "c # cur"]
      by (auto simp: rev_takeWhile_snoc)
  qed
qed

lemma rev_takeWhile_rev_all:
  assumes "sep \<notin> set s"
  shows "rev (takeWhile (\<lambda>c. c \<noteq> sep) (rev s)) = s"
proof -
  have "takeWhile (\<lambda>c. c \<noteq> sep) (rev s) = rev s"
    using assms by auto
  then show ?thesis by (simp only: rev_rev_ident)
qed

lemma js_last_split: "js_last (str_split CHR ''/'' u) = Some (final_segment u)"
proof -
  have "last (split_from CHR ''/'' [] u) = final_segment u"
    by (simp add: last_split_from final_segment_def rev_takeWhile_rev_all)
  then show ?thesis
    by (simp add: js_last_def str_split_def split_from_nonempty)
qed

lemma js_first_split: "js_first (str_split CHR ''?'' s) = Some (strip_query s)"
proof -
  have "split_from CHR ''?'' [] s \<noteq> []" by (rule split_from_nonempty)
  moreover have "hd (split_from CHR ''?'' [] s) = strip_query s"
    by (simp add: hd_split_from strip_query_def)
  ultimately show ?thesis
    by (cases "split_from CHR ''?'' [] s") (auto simp: js_first_def str_split_def)
qed

lemma getFilenameFromUrl_eq:
  "getFilenameFromUrl u = Inr (Some (strip_query (final_segment u)))"
  by (simp add: getFilenameFromUrl_def js_last_split js_first_split)

lemma final_segment_no_slash: "CHR ''/'' \<notin> set (final_segment u)"
  by (auto simp: final_segment_def dest: set_takeWhileD)

lemma strip_query_no_mark: "CHR ''?'' \<notin> set (strip_query s)"
  by (auto simp: strip_query_def dest: set_takeWhileD)

lemma strip_query_subset: "set (strip_query s) \<subseteq> set s"
  by (auto simp: strip_query_def dest: set_takeWhileD)

lemma final_segment_id: "CHR ''/'' \<notin> set s \<Longrightarrow> final_segment s = s"
  by (simp add: final_segment_def rev_takeWhile_rev_all)

lemma strip_query_id: "CHR ''?'' \<notin> set s \<Longrightarrow> strip_query s = s"
  by (auto simp: strip_query_def)

text \<open>
  C5. For every URL string the Filename Extractor returns the final \<open>/\<close>-separated segment
  with everything from the first \<open>?\<close> onward removed, and it is idempotent: applied to its
  own output it returns that output unchanged.
\<close>

theorem C5_extractor_final_segment_idempotent:
  "getFilenameFromUrl u = Inr (Some (strip_query (final_segment u)))
   \<and> getFilenameFromUrl (strip_query (final_segment u))
       = Inr (Some (strip_query (final_segment u)))"
proof -
  let ?f = "strip_query (final_segment u)"
  have "CHR ''/'' \<notin> set ?f"
    using strip_query_subset[of "final_segment u"] final_segment_no_slash[of u] by blast
  then have "final_segment ?f = ?f" by (rule final_segment_id)
  moreover have "strip_query ?f = ?f"
    by (rule strip_query_id) (rule strip_query_no_mark)
  ultimately show ?thesis by (simp add: getFilenameFromUrl_eq)
qed

text \<open>
  C3 (as stated). The URL \<open>https://i.example.com/iap_75x75.12345.jpg\<close> is said to be
  normalized to \<open>https://i.example.com/iap_640x640.12345.jpg\<close>. It is not: the URL has
  no path segment \<open>/iap/\<close>, so no branch of \<open>formatImageUrl\<close> is taken.
\<close>

theorem C3_counterexample:
  "formatImageUrl ''https://i.example.com/iap_75x75.12345.jpg''
     \<noteq> ''https://i.example.com/iap_640x640.12345.jpg''"
  by code_simp

text \<open>
  C3 (amended). The URL \<open>https://i.example.com/iap_75x75.12345.jpg\<close> is returned
  unchanged by the URL Normalizer and its extracted filename is \<open>iap_75x75.12345.jpg\<close>.
  With the family marker in its path, \<open>https://i.example.com/iap/iap_75x75.12345.jpg\<close>
  is normalized to \<open>https://i.example.com/iap/iap_640x640.12345.jpg\<close>, whose extracted
  filename is \<open>iap_640x640.12345.jpg\<close>; the Filename Extractor also returns
  \<open>iap_640x640.12345.jpg\<close> for \<open>https://i.example.com/iap_640x640.12345.jpg\<close>.
\<close>

theorem C3_scenario_A:
  "formatImageUrl ''https://i.example.com/iap_75x75.12345.jpg''
     = ''https://i.example.com/iap_75x75.12345.jpg''
   \<and> getFilenameFromUrl ''https://i.example.com/iap_75x75.12345.jpg''
     = Inr (Some ''iap_75x75.12345.jpg'')
   \<and> formatImageUrl ''https://i.example.com/iap/iap_75x75.12345.jpg''
     = ''https://i.example.com/iap/iap_640x640.12345.jpg''
   \<and> getFilenameFromUrl ''https://i.example.com/iap/iap_640x640.12345.jpg''
     = Inr (Some ''iap_640x640.12345.jpg'')
   \<and> getFilenameFromUrl ''https://i.example.com/iap_640x640.12345.jpg''
     = Inr (Some ''iap_640x640.12345.jpg'')"
  by code_simp

subsection \<open>Order of the family checks\<close>

lemma formatImageUrl_source_order:
  "formatImageUrl u = formatImageUrl_in_order [Iap, Il, Iusa] u"
  by (simp add: formatImageUrl_def)

lemma in_order_none:
  "\<forall>f\<in>set ord. \<not> str_includes u (marker f) \<Longrightarrow> formatImageUrl_in_order ord u = u"
  by (induction ord) auto

lemma in_order_unique:
  assumes "f \<in> set ord" and "str_includes u (marker f)"
    and "\<And>g. str_includes u (marker g) \<Longrightarrow> g = f"
  shows "formatImageUrl_in_order ord u = rewrite f u"
  using assms(1)
proof (induction ord)
  case Nil
  then show ?case by simp
next
  case (Cons g ord)
  show ?case
  proof (cases "str_includes u (marker g)")
    case True
    then have "g = f" by (rule assms(3))
    with True show ?thesis by simp
  next
    case False
    with assms(2) have "g \<noteq> f" by blast
    with Cons.prems have "f \<in> set ord" by simp
    then have "formatImageUrl_in_order ord u = rewrite f u" by (rule Cons.IH)
    with False show ?thesis by simp
  qed
qed

lemma matched_at_most_one:
  assumes "length (matched_families u) \<le> 1"
    and "str_includes u (marker f)" and "str_includes u (marker g)"
  shows "g = f"
  using assms by (cases f; cases g) (auto simp: matched_families_def split: if_splits)

text \<open>
  C8 (as stated). The family markers are said to be mutually exclusive, so that the order
  of the checks would not matter. A URL can contain two markers, and then the order
  decides: with \<open>/iap/\<close> and \<open>/il/\<close> both present, the implemented order looks for
  \<open>iap_WxH\<close> only and leaves the URL as it is, while checking \<open>/il/\<close> first rewrites
  \<open>il_75x75\<close>.
\<close>

theorem C8_counterexample:
  "str_includes ''https://i.example.com/iap/il/il_75x75.1.jpg'' (marker Iap)
   \<and> str_includes ''https://i.example.com/iap/il/il_75x75.1.jpg'' (marker Il)
   \<and> formatImageUrl_in_order [Il, Iap, Iusa] ''https://i.example.com/iap/il/il_75x75.1.jpg''
       \<noteq> formatImageUrl ''https://i.example.com/iap/il/il_75x75.1.jpg''"
  by code_simp

text \<open>
  C8 (amended). For every URL that contains at most one of the three family markers,
  running the three checks with their rewrites in any order gives the result of the
  implemented order.
\<close>

theorem C8_order_independent_when_exclusive:
  assumes "length (matched_families u) \<le> 1" and "set ord = {Iap, Il, Iusa}"
  shows "formatImageUrl_in_order ord u = formatImageUrl u"
proof (cases "\<exists>f. str_includes u (marker f)")
  case True
  then obtain f where f: "str_includes u (marker f)" ..
  have uniq: "\<And>g. str_includes u (marker g) \<Longrightarrow> g = f"
    using assms(1) f by (rule matched_at_most_one)
  have "f \<in> set ord" using assms(2) by (cases f) auto
  then have "formatImageUrl_in_order ord u = rewrite f u"
    using f uniq by (rule in_order_unique)
  moreover have "f \<in> set [Iap, Il, Iusa]" by (cases f) auto
  then have "formatImageUrl_in_order [Iap, Il, Iusa] u = rewrite f u"
    using f uniq by (rule in_order_unique)
  ultimately show ?thesis by (simp only: formatImageUrl_source_order)
next
  case False
  then have none: "\<forall>f\<in>set xs. \<not> str_includes u (marker f)" for xs
    by blast
  have "formatImageUrl_in_order ord u = u"
    using none by (rule in_order_none)
  moreover have "formatImageUrl_in_order [Iap, Il, Iusa] u = u"
    using none by (rule in_order_none)
  ultimately show ?thesis by (simp only: formatImageUrl_source_order)
qed

theorem C8_order_independent_witness:
  "length (matched_families ''https://i.example.com/1/r/il/ab/il_75x75.1.jpg'') \<le> 1
   \<and> set [Iusa, Il, Iap] = {Iap, Il, Iusa}
   \<and> formatImageUrl_in_order [Iusa, Il, Iap] ''https://i.example.com/1/r/il/ab/il_75x75.1.jpg''
       = formatImageUrl ''https://i.example.com/1/r/il/ab/il_75x75.1.jpg''
   \<and> formatImageUrl ''https://i.example.com/1/r/il/ab/il_75x75.1.jpg''
       = ''https://i.example.com/1/r/il/ab/il_570x456.1.jpg''"
proof -
  have h1: "length (matched_families ''https://i.example.com/1/r/il/ab/il_75x75.1.jpg'') \<le> 1"
    by code_simp
  have h2: "set [Iusa, Il, Iap] = {Iap, Il, Iusa}" by auto
  have h3: "formatImageUrl ''https://i.example.com/1/r/il/ab/il_75x75.1.jpg''
       = ''https://i.example.com/1/r/il/ab/il_570x456.1.jpg''"
    by code_simp
  show ?thesis
    using h1 h2 h3 C8_order_independent_when_exclusive [OF h1 h2] by simp
qed

text \<open>
  C9. The two Filename Extractors differ, and the test script's variant is said to return
  only the trailing \<open>id.extension\<close> of a final segment \<open>prefix_tokens.id.extension\<close>. On
  the test script's own first case, \<open>https://i.etsystatic.com/iap_640x640.12345.jpg\<close>
  with expected result \<open>12345.jpg\<close>, the variant returns \<open>640x640.12345.jpg\<close>: the
  class \<open>[^_]\<close> also matches the dot, so the match starts right after the last
  underscore. The main extractor returns the whole segment.
\<close>

theorem C9_test_variant_on_its_own_case:
  "test_getFilenameFromUrl ''https://i.etsystatic.com/iap_640x640.12345.jpg''
     = Inr (Some ''640x640.12345.jpg'')
   \<and> getFilenameFromUrl ''https://i.etsystatic.com/iap_640x640.12345.jpg''
     = Inr (Some ''iap_640x640.12345.jpg'')
   \<and> test_getFilenameFromUrl ''https://i.etsystatic.com/il_570x456.67890.jpg?version=0''
     = Inr (Some ''570x456.67890.jpg'')
   \<and> test_getFilenameFromUrl ''https://i.etsystatic.com/iap_640x640.12345.jpg''
     \<noteq> getFilenameFromUrl ''https://i.etsystatic.com/iap_640x640.12345.jpg''"
  by code_simp

section \<open>Properties of the Batch Processor\<close>

lemma process_review_sum:
  assumes "process_review E out ok ik r st w = (Inr st', w')"
  shows "downloadCount st' + skipCount st' + errorCount st'
           = Suc (downloadCount st + skipCount st + errorCount st)"
  using assms
  by (auto simp: process_review_def download_step_def skipped_def Let_def
           split: sum.splits if_splits jsval.splits option.splits prod.splits)

lemma process_reviews_sum:
  assumes "process_reviews E out ok ik rs st w = (Inr st', w')"
  shows "downloadCount st' + skipCount st' + errorCount st'
           = downloadCount st + skipCount st + errorCount st + length rs"
  using assms
proof (induction rs arbitrary: st w)
  case Nil
  then show ?case by simp
next
  case (Cons r rs)
  from Cons.prems obtain st1 w1 where
    step: "process_review E out ok ik r st w = (Inr st1, w1)" and
    rest: "process_reviews E out ok ik rs st1 w1 = (Inr st', w')"
    by (auto split: prod.splits sum.splits)
  from process_review_sum[OF step] Cons.IH[OF rest] show ?case by simp
qed

text \<open>
  C1. In every run of the Batch Processor whose input parses and has an array under
  \<open>Reviews\<close>, once the loop has ended the counters of downloaded, skipped and errored
  reviews add up to the number of reviews in the array, which is the total reported.
\<close>

theorem C1_counters_sum_to_total:
  assumes "read_and_parse E jsonFilePath w = Inr data"
    and "get_prop (prim_prop E) data ''Reviews'' = Inr (JArr reviews)"
    and "downloadProductImages E jsonFilePath outputFolder objectKey imageKey w
           = Some (Inr result, w')"
  shows "\<exists>st. result = Summary (length reviews) st
              \<and> downloadCount st + skipCount st + errorCount st = length reviews"
proof -
  from assms obtain w1 st where
    loop: "process_reviews E outputFolder objectKey imageKey reviews initial_state w1 = (Inr st, w')"
    and res: "result = Summary (length reviews) st"
    by (auto simp: downloadProductImages_def split: prod.splits sum.splits option.splits)
  from process_reviews_sum[OF loop] have
    "downloadCount st + skipCount st + errorCount st = length reviews"
    by (simp add: initial_state_def)
  with res show ?thesis by blast
qed


text \<open>
  A run over four reviews: one download succeeds, one review has no thumbnail, one
  request fails, and the last review repeats the first filename.
\<close>

theorem C1_counters_sum_witness:
  "read_and_parse
      (run_env (JObj [(''Reviews'', JArr [thumb ''https://i.example.com/iusa/1/a.jpg'',
                                           JObj [(''Reviewer'', JNull)],
                                           thumb ''https://i.example.com/iusa/2/b.jpg'',
                                           thumb ''https://i.example.com/iusa/1/a.jpg''])])
               [''https://i.example.com/iusa/2/b.jpg''])
      ''export.json'' ()
    = Inr (JObj [(''Reviews'', JArr [thumb ''https://i.example.com/iusa/1/a.jpg'',
                                      JObj [(''Reviewer'', JNull)],
                                      thumb ''https://i.example.com/iusa/2/b.jpg'',
                                      thumb ''https://i.example.com/iusa/1/a.jpg''])])
   \<and> (\<exists>st. map_option fst (downloadProductImages
                 (run_env (JObj [(''Reviews'', JArr [thumb ''https://i.example.com/iusa/1/a.jpg'',
                                           JObj [(''Reviewer'', JNull)],
                                           thumb ''https://i.example.com/iusa/2/b.jpg'',
                                           thumb ''https://i.example.com/iusa/1/a.jpg''])])
                          [''https://i.example.com/iusa/2/b.jpg''])
                 ''export.json'' ''out'' ''Reviewer'' ''Thumbnail'' ())
              = Some (Inr (Summary 4 st))
            \<and> downloadCount st = 1 \<and> skipCount st = 2 \<and> errorCount st = 1
            \<and> downloadCount st + skipCount st + errorCount st = 4)"
proof -
  let ?rs = "[thumb ''https://i.example.com/iusa/1/a.jpg'',
              JObj [(''Reviewer'', JNull)],
              thumb ''https://i.example.com/iusa/2/b.jpg'',
              thumb ''https://i.example.com/iusa/1/a.jpg'']"
  let ?E = "run_env (JObj [(''Reviews'', JArr ?rs)]) [''https://i.example.com/iusa/2/b.jpg'']"
  let ?st = "\<lparr>visited = [''a.jpg'', ''b.jpg''], downloadCount = 1, skipCount = 2,
              errorCount = 1,
              attempts = [(''https://i.example.com/iusa/1/a.jpg'', ''out/a.jpg''),
                          (''https://i.example.com/iusa/2/b.jpg'', ''out/b.jpg'')]\<rparr>"
  have h1: "read_and_parse ?E ''export.json'' () = Inr (JObj [(''Reviews'', JArr ?rs)])"
    by (simp add: read_and_parse_def run_env_def)
  have h2: "get_prop (prim_prop ?E) (JObj [(''Reviews'', JArr ?rs)]) ''Reviews'' = Inr (JArr ?rs)"
    by simp
  have h3: "downloadProductImages ?E ''export.json'' ''out'' ''Reviewer'' ''Thumbnail'' ()
              = Some (Inr (Summary 4 ?st), ())"
    by code_simp
  from C1_counters_sum_to_total [OF h1 h2 h3] h1 h3 show ?thesis by simp
qed

subsection \<open>Fetcher\<close>

text \<open>
  C6. For every URL and destination path the Fetcher ends with a value and never with an
  exception: it returns \<open>true\<close> exactly when the request and the write both succeed, and
  \<open>false\<close> exactly when the request fails or the write fails.
\<close>

theorem C6_fetcher_never_throws:
  "(\<exists>b. fst (downloadImage E url filepath w) = Inr b)
   \<and> (fst (downloadImage E url filepath w) = Inr True) =
       (\<exists>response_data w1 w2. axios_get E url w = (Inr response_data, w1)
            \<and> writeFileSync E filepath response_data w1 = (None, w2))
   \<and> (fst (downloadImage E url filepath w) = Inr False) =
       ((\<exists>e w1. axios_get E url w = (Inl e, w1))
        \<or> (\<exists>response_data w1 e w2. axios_get E url w = (Inr response_data, w1)
            \<and> writeFileSync E filepath response_data w1 = (Some e, w2)))"
  by (auto simp: downloadImage_def downloadImage_body_def try_catch_def
           split: prod.splits sum.splits option.splits)

theorem C6_fetcher_witness:
  "fst (downloadImage (run_env JNull [''https://i.example.com/gone.jpg''])
          ''https://i.example.com/gone.jpg'' ''out/gone.jpg'' ()) = Inr False
   \<and> fst (downloadImage (run_env JNull [''https://i.example.com/gone.jpg''])
          ''https://i.example.com/here.jpg'' ''out/here.jpg'' ()) = Inr True"
proof -
  let ?E = "run_env JNull [''https://i.example.com/gone.jpg'']"
  have a: "axios_get ?E ''https://i.example.com/gone.jpg'' () = (Inl (Thrown ''Network Error''), ())"
    by (simp add: run_env_def)
  have b: "axios_get ?E ''https://i.example.com/here.jpg'' () = (Inr ''(image)'', ())"
    and c: "writeFileSync ?E ''out/here.jpg'' ''(image)'' () = (None, ())"
    by (simp_all add: run_env_def)
  from C6_fetcher_never_throws [of ?E "''https://i.example.com/gone.jpg''" "''out/gone.jpg''" "()"]
    C6_fetcher_never_throws [of ?E "''https://i.example.com/here.jpg''" "''out/here.jpg''" "()"]
    a b c
  show ?thesis by auto
qed

subsection \<open>An export without the field \<open>Reviews\<close>\<close>

lemma Reviews_not_inherited: "''Reviews'' \<notin> set object_prototype_keys"
  by (simp add: object_prototype_keys_def)

lemma downloadProductImages_missing_reviews:
  assumes "read_and_parse E jsonFilePath w = Inr (JObj kvs)"
    and "map_of kvs ''Reviews'' = None"
  shows "downloadProductImages E jsonFilePath outputFolder objectKey imageKey w =
           (case ensureDirectoryExists E outputFolder w of
              (Some e, w1) \<Rightarrow> Some (Inl e, w1)
            | (None, w1) \<Rightarrow>
                Some (Inl (TypeError ''Cannot read properties of undefined (reading length)''),
                      w1))"
  using assms Reviews_not_inherited
  by (simp add: downloadProductImages_def split: prod.splits option.splits)

lemma main_missing_reviews_exit:
  assumes "read_and_parse E (arg_or args 0 ''./total_etsy_shop_reviews.json'') w = Inr (JObj kvs)"
    and "map_of kvs ''Reviews'' = None"
  shows "map_option fst (main E args w) = Some 1"
  using downloadProductImages_missing_reviews[OF assms]
  by (simp add: main_def Let_def split: prod.splits option.splits)

text \<open>
  C7. When the input file parses to an object that has no field \<open>Reviews\<close> (and the
  output folder could be provided), \<open>downloadProductImages\<close> throws a \<open>TypeError\<close> where
  it reads the length of the collection; nothing catches it before the handler of
  \<open>main\<close>, and the process ends with exit status 1.
\<close>

theorem C7_missing_reviews_is_fatal:
  assumes "read_and_parse E (arg_or args 0 ''./total_etsy_shop_reviews.json'') w = Inr (JObj kvs)"
    and "map_of kvs ''Reviews'' = None"
    and "ensureDirectoryExists E (path_join [arg_or args 1 ''./Result/Images'', ''Reviews'']) w
           = (None, w1)"
  shows "downloadProductImages E (arg_or args 0 ''./total_etsy_shop_reviews.json'')
           (path_join [arg_or args 1 ''./Result/Images'', ''Reviews''])
           ''Reviewer'' ''Thumbnail'' w
         = Some (Inl (TypeError ''Cannot read properties of undefined (reading length)''), w1)
       \<and> main E args w = Some (1, w1)"
  using downloadProductImages_missing_reviews[OF assms(1,2)] assms(3)
  by (simp add: main_def Let_def)

theorem C7_missing_reviews_witness:
  "read_and_parse (run_env (JObj [(''Shop'', JStr ''x'')]) [])
       (arg_or [''export.json''] 0 ''./total_etsy_shop_reviews.json'') ()
     = Inr (JObj [(''Shop'', JStr ''x'')])
   \<and> map_of [(''Shop'', JStr ''x'')] ''Reviews'' = None
   \<and> main (run_env (JObj [(''Shop'', JStr ''x'')]) []) [''export.json''] () = Some (1, ())"
proof -
  let ?E = "run_env (JObj [(''Shop'', JStr ''x'')]) []"
  have h1: "read_and_parse ?E (arg_or [''export.json''] 0 ''./total_etsy_shop_reviews.json'') ()
              = Inr (JObj [(''Shop'', JStr ''x'')])"
    by (simp add: read_and_parse_def run_env_def)
  have h2: "map_of [(''Shop'', JStr ''x'')] ''Reviews'' = None" by simp
  have h3: "ensureDirectoryExists ?E
              (path_join [arg_or [''export.json''] 1 ''./Result/Images'', ''Reviews'']) ()
              = (None, ())"
    by (simp add: ensureDirectoryExists_def run_env_def)
  from C7_missing_reviews_is_fatal [OF h1 h2 h3] h1 h2 show ?thesis by simp
qed

subsection \<open>Deduplication by filename\<close>

text \<open>
  C2. Two reviews with the same derived filename should lead to exactly one download
  attempt. For a filename that is a property name of \<open>Object.prototype\<close>, here
  \<open>toString\<close>, \<open>visited[filename]\<close> is truthy before anything was stored: both reviews
  are counted as skipped and no download is attempted at all.
\<close>

theorem C2_inherited_name_never_downloaded:
  "downloadProductImages
     (run_env (JObj [(''Reviews'', JArr [thumb ''https://i.example.com/iusa/1/toString'',
                                          thumb ''https://i.example.com/iusa/1/toString''])]) [])
     ''export.json'' ''out'' ''Reviewer'' ''Thumbnail'' ()
   = Some (Inr (Summary 2 \<lparr>visited = [], downloadCount = 0, skipCount = 2,
                              errorCount = 0, attempts = []\<rparr>), ())
   \<and> derived_filename (run_env JNull []) ''Reviewer'' ''Thumbnail''
        (thumb ''https://i.example.com/iusa/1/toString'') = Some ''toString''"
  by code_simp

lemma proto_inherited: "visited_has own ''__proto__''"
  by (simp add: visited_has_def object_prototype_keys_def)

lemma visited_has_put:
  assumes "\<not> visited_has own k"
  shows "visited_has (visited_put own k) k"
proof -
  from assms proto_inherited[of own] have "k \<noteq> ''__proto__''" by blast
  then show ?thesis by (simp add: visited_has_def visited_put_def)
qed

lemma visited_put_mono: "visited_has own k \<Longrightarrow> visited_has (visited_put own k') k"
  by (auto simp: visited_has_def visited_put_def)

text \<open>What an iteration that does not throw has done.\<close>

lemma download_step_str:
  "download_step E out (JStr raw) st w =
     (if visited_has (visited st) (strip_query (final_segment (formatImageUrl raw)))
      then (Inr (skipped st), w)
      else
        (case downloadImage E (formatImageUrl raw)
                (path_join [out, strip_query (final_segment (formatImageUrl raw))]) w of
           (Inl e, w1) \<Rightarrow> (Inl e, w1)
         | (Inr b, w1) \<Rightarrow>
             (Inr (attempted st (formatImageUrl raw)
                     (strip_query (final_segment (formatImageUrl raw)))
                     (path_join [out, strip_query (final_segment (formatImageUrl raw))]) b),
              w1)))"
  by (simp add: download_step_def getFilenameFromUrl_eq attempted_def Let_def
           split: prod.splits sum.splits)

lemma download_step_cases:
  assumes "download_step E out img st w = (Inr st', w')"
  shows "(st' = skipped st \<and> w' = w)
       \<or> (\<exists>u f b. getFilenameFromUrl u = Inr (Some f)
              \<and> \<not> visited_has (visited st) f
              \<and> downloadImage E u (path_join [out, f]) w = (Inr b, w')
              \<and> st' = attempted st u f (path_join [out, f]) b)"
proof (cases img)
  case (JStr raw)
  define u where "u = formatImageUrl raw"
  define f where "f = strip_query (final_segment u)"
  have f: "getFilenameFromUrl u = Inr (Some f)"
    unfolding f_def by (rule getFilenameFromUrl_eq)
  have step: "download_step E out img st w =
     (if visited_has (visited st) f then (Inr (skipped st), w)
      else (case downloadImage E u (path_join [out, f]) w of
              (Inl e, w1) \<Rightarrow> (Inl e, w1)
            | (Inr b, w1) \<Rightarrow> (Inr (attempted st u f (path_join [out, f]) b), w1)))"
    unfolding JStr u_def f_def by (rule download_step_str)
  show ?thesis
  proof (cases "visited_has (visited st) f")
    case True
    with assms step show ?thesis by simp
  next
    case False
    with assms step obtain b where
      "downloadImage E u (path_join [out, f]) w = (Inr b, w')"
      "st' = attempted st u f (path_join [out, f]) b"
      by (auto split: prod.splits sum.splits)
    with f False show ?thesis by blast
  qed
qed (use assms in \<open>simp_all add: download_step_def\<close>)

lemma process_review_cases:
  assumes "process_review E out ok ik r st w = (Inr st', w')"
  shows "(st' = skipped st \<and> w' = w)
       \<or> (\<exists>u f b. getFilenameFromUrl u = Inr (Some f)
              \<and> \<not> visited_has (visited st) f
              \<and> downloadImage E u (path_join [out, f]) w = (Inr b, w')
              \<and> st' = attempted st u f (path_join [out, f]) b)"
proof -
  from assms have
    "(st' = skipped st \<and> w' = w) \<or> (\<exists>img. download_step E out img st w = (Inr st', w'))"
    by (auto simp: process_review_def split: sum.splits if_splits)
  then show ?thesis
  proof (elim disjE exE)
    assume "st' = skipped st \<and> w' = w"
    then show ?thesis by simp
  next
    fix img
    assume "download_step E out img st w = (Inr st', w')"
    then show ?thesis by (rule download_step_cases)
  qed
qed

lemma visited_attempted [simp]:
  "visited (attempted st u f p b) = visited_put (visited st) f"
  by (simp add: attempted_def Let_def)

lemma attempts_attempted [simp]:
  "attempts (attempted st u f p b) = attempts st @ [(u, p)]"
  by (simp add: attempted_def Let_def)

lemma counters_attempted [simp]:
  "skipCount (attempted st u f p b) = skipCount st"
  "downloadCount (attempted st u f p b) + errorCount (attempted st u f p b)
     = Suc (downloadCount st + errorCount st)"
  by (simp_all add: attempted_def Let_def)

lemma visited_skipped [simp]: "visited (skipped st) = visited st"
  by (simp add: skipped_def)

lemma attempts_skipped [simp]: "attempts (skipped st) = attempts st"
  by (simp add: skipped_def)

lemma process_review_mono:
  assumes "process_review E out ok ik r st w = (Inr st', w')"
    and "visited_has (visited st) k"
  shows "visited_has (visited st') k"
  using process_review_cases[OF assms(1)] assms(2)
  by (auto simp: visited_put_mono)

lemma process_review_no_repeat:
  assumes "process_review E out ok ik r st w = (Inr st', w')"
    and "visited_has (visited st) f"
  shows "\<exists>new. attempts st' = attempts st @ new
           \<and> (\<forall>a\<in>set new. getFilenameFromUrl (fst a) \<noteq> Inr (Some f))"
  using process_review_cases[OF assms(1)] assms(2)
  by auto

lemma process_reviews_no_repeat:
  assumes "process_reviews E out ok ik rs st w = (Inr st', w')"
    and "visited_has (visited st) f"
  shows "visited_has (visited st') f
       \<and> (\<exists>new. attempts st' = attempts st @ new
           \<and> (\<forall>a\<in>set new. getFilenameFromUrl (fst a) \<noteq> Inr (Some f)))"
  using assms
proof (induction rs arbitrary: st w)
  case Nil
  then show ?case by simp
next
  case (Cons r rs)
  from Cons.prems(1) obtain st1 w1 where
    step: "process_review E out ok ik r st w = (Inr st1, w1)" and
    rest: "process_reviews E out ok ik rs st1 w1 = (Inr st', w')"
    by (auto split: prod.splits sum.splits)
  have v1: "visited_has (visited st1) f"
    using step Cons.prems(2) by (rule process_review_mono)
  from process_review_no_repeat[OF step Cons.prems(2)] obtain new1 where
    n1: "attempts st1 = attempts st @ new1"
        "\<forall>a\<in>set new1. getFilenameFromUrl (fst a) \<noteq> Inr (Some f)"
    by blast
  from Cons.IH[OF rest v1] obtain new2 where
    v2: "visited_has (visited st') f" and
    n2: "attempts st' = attempts st1 @ new2"
        "\<forall>a\<in>set new2. getFilenameFromUrl (fst a) \<noteq> Inr (Some f)"
    by blast
  from n1 n2 have "attempts st' = attempts st @ (new1 @ new2)"
    and "\<forall>a\<in>set (new1 @ new2). getFilenameFromUrl (fst a) \<noteq> Inr (Some f)"
    by auto
  with v2 show ?case by blast
qed

lemma process_review_duplicate_skipped:
  assumes "derived_filename E ok ik r = Some f"
    and "visited_has (visited st) f"
  shows "process_review E out ok ik r st w = (Inr (skipped st), w)"
  using assms
  by (auto simp: derived_filename_def process_review_def download_step_def Let_def
           split: sum.splits if_splits jsval.splits option.splits)

lemma process_review_first_attempt:
  assumes "derived_filename E ok ik r = Some f"
    and "\<not> visited_has (visited st) f"
    and "process_review E out ok ik r st w = (Inr st1, w1)"
  shows "visited_has (visited st1) f
       \<and> (\<exists>u. getFilenameFromUrl u = Inr (Some f)
              \<and> attempts st1 = attempts st @ [(u, path_join [out, f])])
       \<and> skipCount st1 = skipCount st
       \<and> downloadCount st1 + errorCount st1 = Suc (downloadCount st + errorCount st)"
proof -
  from assms(1) obtain sub raw where
    sub: "get_prop (prim_prop E) r ok = Inr sub" "truthy sub"
    and img: "get_prop (prim_prop E) sub ik = Inr (JStr raw)" "raw \<noteq> []"
    and f: "getFilenameFromUrl (formatImageUrl raw) = Inr (Some f)"
    by (auto simp: derived_filename_def
             split: sum.splits if_splits jsval.splits option.splits)
  from f have f': "strip_query (final_segment (formatImageUrl raw)) = f"
    by (simp add: getFilenameFromUrl_eq)
  from sub img assms(3) have
    "download_step E out (JStr raw) st w = (Inr st1, w1)"
    by (simp add: process_review_def)
  with assms(2) obtain b where
    "st1 = attempted st (formatImageUrl raw) f (path_join [out, f]) b"
    by (auto simp: download_step_str f' split: prod.splits sum.splits)
  with f visited_has_put[OF assms(2)] show ?thesis by auto
qed

text \<open>
  When a review derives a filename for which \<open>visited[filename]\<close> is not yet truthy,
  the filename is marked and one download attempt is made, counted as downloaded or as
  errored; whatever its result, the filename is marked afterwards. However many reviews
  are processed in between, no further attempt is made for that filename, and every later
  review that derives it is counted as skipped, with no other effect.
\<close>

lemma fresh_filename_marked_and_not_retried:
  assumes "derived_filename E objectKey imageKey review = Some filename"
    and "\<not> visited_has (visited st) filename"
    and "process_review E outputFolder objectKey imageKey review st w = (Inr st1, w1)"
    and "process_reviews E outputFolder objectKey imageKey between st1 w1 = (Inr st2, w2)"
    and "derived_filename E objectKey imageKey later = Some filename"
  shows "visited_has (visited st1) filename
       \<and> (\<exists>u. getFilenameFromUrl u = Inr (Some filename)
              \<and> attempts st1 = attempts st @ [(u, path_join [outputFolder, filename])])
       \<and> skipCount st1 = skipCount st
       \<and> downloadCount st1 + errorCount st1 = Suc (downloadCount st + errorCount st)
       \<and> (\<exists>new. attempts st2 = attempts st1 @ new
              \<and> (\<forall>a\<in>set new. getFilenameFromUrl (fst a) \<noteq> Inr (Some filename)))
       \<and> process_review E outputFolder objectKey imageKey later st2 w2
           = (Inr (skipped st2), w2)"
proof -
  note first = process_review_first_attempt[OF assms(1,2,3)]
  then have v1: "visited_has (visited st1) filename" by blast
  note rest = process_reviews_no_repeat[OF assms(4) v1]
  then have v2: "visited_has (visited st2) filename" by blast
  have "process_review E outputFolder objectKey imageKey later st2 w2 = (Inr (skipped st2), w2)"
    using assms(5) v2 by (rule process_review_duplicate_skipped)
  with first rest show ?thesis by blast
qed


text \<open>
  A run in which the first request fails: the filename stays marked, and a later review
  with another URL but the same filename is skipped.
\<close>

lemma failed_download_stays_marked:
  "derived_filename (run_env JNull [''https://i.example.com/iusa/1/a.jpg''])
       ''Reviewer'' ''Thumbnail'' (thumb ''https://i.example.com/iusa/1/a.jpg'') = Some ''a.jpg''
   \<and> \<not> visited_has (visited initial_state) ''a.jpg''
   \<and> process_review (run_env JNull [''https://i.example.com/iusa/1/a.jpg''])
         ''out'' ''Reviewer'' ''Thumbnail'' (thumb ''https://i.example.com/iusa/1/a.jpg'')
         initial_state ()
       = (Inr \<lparr>visited = [''a.jpg''], downloadCount = 0, skipCount = 0, errorCount = 1,
                attempts = [(''https://i.example.com/iusa/1/a.jpg'', ''out/a.jpg'')]\<rparr>, ())
   \<and> derived_filename (run_env JNull [''https://i.example.com/iusa/1/a.jpg''])
       ''Reviewer'' ''Thumbnail'' (thumb ''https://cdn.example.com/iusa/9/a.jpg?version=3'')
       = Some ''a.jpg''
   \<and> process_review (run_env JNull [''https://i.example.com/iusa/1/a.jpg''])
         ''out'' ''Reviewer'' ''Thumbnail''
         (thumb ''https://cdn.example.com/iusa/9/a.jpg?version=3'')
         \<lparr>visited = [''a.jpg'', ''b.jpg''], downloadCount = 1, skipCount = 1, errorCount = 1,
          attempts = [(''https://i.example.com/iusa/1/a.jpg'', ''out/a.jpg''),
                      (''https://i.example.com/iusa/2/b.jpg'', ''out/b.jpg'')]\<rparr> ()
       = (Inr \<lparr>visited = [''a.jpg'', ''b.jpg''], downloadCount = 1, skipCount = 2,
                errorCount = 1,
                attempts = [(''https://i.example.com/iusa/1/a.jpg'', ''out/a.jpg''),
                            (''https://i.example.com/iusa/2/b.jpg'', ''out/b.jpg'')]\<rparr>, ())"
proof -
  let ?E = "run_env JNull [''https://i.example.com/iusa/1/a.jpg'']"
  let ?st1 = "\<lparr>visited = [''a.jpg''], downloadCount = 0, skipCount = 0, errorCount = 1,
               attempts = [(''https://i.example.com/iusa/1/a.jpg'', ''out/a.jpg'')]\<rparr>"
  let ?st2 = "\<lparr>visited = [''a.jpg'', ''b.jpg''], downloadCount = 1, skipCount = 1,
               errorCount = 1,
               attempts = [(''https://i.example.com/iusa/1/a.jpg'', ''out/a.jpg''),
                           (''https://i.example.com/iusa/2/b.jpg'', ''out/b.jpg'')]\<rparr>"
  have h1: "derived_filename ?E ''Reviewer'' ''Thumbnail''
              (thumb ''https://i.example.com/iusa/1/a.jpg'') = Some ''a.jpg''"
    by code_simp
  have h2: "\<not> visited_has (visited initial_state) ''a.jpg''"
    by code_simp
  have h3: "process_review ?E ''out'' ''Reviewer'' ''Thumbnail''
              (thumb ''https://i.example.com/iusa/1/a.jpg'') initial_state () = (Inr ?st1, ())"
    by code_simp
  have h4: "process_reviews ?E ''out'' ''Reviewer'' ''Thumbnail''
              [JObj [], thumb ''https://i.example.com/iusa/2/b.jpg''] ?st1 () = (Inr ?st2, ())"
    by code_simp
  have h5: "derived_filename ?E ''Reviewer'' ''Thumbnail''
              (thumb ''https://cdn.example.com/iusa/9/a.jpg?version=3'') = Some ''a.jpg''"
    by code_simp
  have sk: "skipped ?st2 = ?st2\<lparr>skipCount := 2\<rparr>"
    by (simp add: skipped_def)
  from fresh_filename_marked_and_not_retried [OF h1 h2 h3 h4 h5]
  have "process_review ?E ''out'' ''Reviewer'' ''Thumbnail''
          (thumb ''https://cdn.example.com/iusa/9/a.jpg?version=3'') ?st2 ()
        = (Inr (skipped ?st2), ())"
    by blast
  then have h6: "process_review ?E ''out'' ''Reviewer'' ''Thumbnail''
          (thumb ''https://cdn.example.com/iusa/9/a.jpg?version=3'') ?st2 ()
        = (Inr (?st2\<lparr>skipCount := 2\<rparr>), ())"
    by (simp only: sk)
  show ?thesis
    using h1 h2 h3 h5 h6 by simp
qed

text \<open>
  C4. A review whose derived filename is not yet in the Visited Set should have the
  filename inserted and a download attempted. For the first review of a run nothing has
  been inserted, and yet, when its filename is \<open>toString\<close>, the iteration inserts
  nothing and attempts nothing: \<open>visited\<close> stays without own keys, no request is made
  and no file is written, and the review is counted as skipped. The cause is the one of
  C2: \<open>visited[filename]\<close> is truthy through \<open>Object.prototype\<close>. A filename that is
  not inherited, \<open>a.jpg\<close>, is inserted, requested and written.
\<close>

theorem C4_inherited_name_not_inserted:
  "''toString'' \<notin> set (visited initial_state)
   \<and> derived_filename (trace_env JNull []) ''Reviewer'' ''Thumbnail''
        (thumb ''https://i.example.com/iusa/1/toString'') = Some ''toString''
   \<and> process_review (trace_env JNull []) ''out'' ''Reviewer'' ''Thumbnail''
        (thumb ''https://i.example.com/iusa/1/toString'') initial_state []
       = (Inr \<lparr>visited = [], downloadCount = 0, skipCount = 1, errorCount = 0,
                attempts = []\<rparr>, [])
   \<and> process_review (trace_env JNull []) ''out'' ''Reviewer'' ''Thumbnail''
        (thumb ''https://i.example.com/iusa/1/a.jpg'') initial_state []
       = (Inr \<lparr>visited = [''a.jpg''], downloadCount = 1, skipCount = 0, errorCount = 0,
                attempts = [(''https://i.example.com/iusa/1/a.jpg'', ''out/a.jpg'')]\<rparr>,
          [Requested ''https://i.example.com/iusa/1/a.jpg'', Wrote ''out/a.jpg''])"
  by code_simp

section \<open>Trailing slashes and the derived file path\<close>

subsection \<open>Where a match of a dimension pattern ends\<close>










subsection \<open>Normalizing a normalized path\<close>




























end
